theory Spec2Isabelle
  imports Main
begin

section \<open>Values and scene nodes\<close>

text \<open>
  JavaScript values as the inspector meets them. Numbers that occur as ids, frame
  indices and filter entries are integers; \<open>NaN\<close> is a number for \<open>typeof\<close> but
  fails \<open>_isNumber\<close>, so it has a constructor of its own. An object value is known by
  its identity only.
\<close>

datatype jsval = JUndefined | JNull | JBool bool | JNum int | JNaN | JStr string | JObj nat

text \<open>The operator \<open>===\<close>: no conversion, \<open>NaN\<close> differs from itself, objects by identity.\<close>

fun strict_eq :: "jsval \<Rightarrow> jsval \<Rightarrow> bool" where
  "strict_eq JNaN _ = False"
| "strict_eq _ JNaN = False"
| "strict_eq a b = (a = b)"

text \<open>\<open>_isString\<close>: \<open>typeof obj === 'string'\<close>.\<close>

fun isString :: "jsval \<Rightarrow> bool" where
  "isString (JStr _) = True"
| "isString _ = False"

text \<open>\<open>_isNumber\<close>: \<open>Number(obj) === obj && !isNaN(obj)\<close>, true of the numbers but \<open>NaN\<close>.\<close>

fun isNumber :: "jsval \<Rightarrow> bool" where
  "isNumber (JNum _) = True"
| "isNumber _ = False"

text \<open>\<open>value instanceof Object\<close>.\<close>

fun isObject :: "jsval \<Rightarrow> bool" where
  "isObject (JObj _) = True"
| "isObject _ = False"

text \<open>Decimal digits of a number, and the string a value turns into under \<open>+\<close>.\<close>

function string_of_nat :: "nat \<Rightarrow> string" where
  "string_of_nat n =
     (if n < 10 then [''0123456789'' ! n]
      else string_of_nat (n div 10) @ [''0123456789'' ! (n mod 10)])"
  by pat_completeness auto
termination
  by (relation "measure id") auto

declare string_of_nat.simps [simp del]

fun js_toString :: "jsval \<Rightarrow> string" where
  "js_toString JUndefined = ''undefined''"
| "js_toString JNull = ''null''"
| "js_toString (JBool b) = (if b then ''true'' else ''false'')"
| "js_toString (JNum i) =
     (if i < 0 then CHR ''-'' # string_of_nat (nat (- i)) else string_of_nat (nat i))"
| "js_toString JNaN = ''NaN''"
| "js_toString (JStr s) = s"
| "js_toString (JObj _) = ''[object Object]''"

text \<open>
  What a call of \<open>obj.getBounds()\<close> does: it returns a rectangle, returns null or
  undefined (\<open>Returns None\<close>), or throws.
\<close>

type_synonym rect = "int \<times> int \<times> int \<times> int"

datatype accessor = Returns "rect option" | Throws

text \<open>
  A display object of the host library. \<open>ref\<close> is the identity of the object,
  \<open>isText\<close> is \<open>obj instanceof createjs.Text\<close>, \<open>toStr\<close> is the result of the host's
  \<open>obj.toString()\<close>, \<open>parentId\<close> is \<open>obj.parent.id\<close>, \<open>props\<close> lists the own
  enumerable properties in the order of \<open>Object.keys(obj)\<close> with their values (the
  structural properties \<open>children\<close>, \<open>parent\<close> and \<open>frameBounds\<close> hold objects and
  are kept apart), \<open>frameBounds\<close> is the frame-indexed bounds table of a movie clip
  when there is one, and \<open>children\<close> is the child array, absent on a leaf.
\<close>

datatype node = Node (ref: nat) (isText: bool) (toStr: string) (parentId: jsval)
  (props: "(string \<times> jsval) list") (getBounds: accessor)
  (frameBounds: "rect option list option") (children: "node list option")

text \<open>Reading a property: a missing property reads as undefined.\<close>

definition field :: "node \<Rightarrow> string \<Rightarrow> jsval" where
  "field obj key = (case map_of (props obj) key of Some v \<Rightarrow> v | None \<Rightarrow> JUndefined)"

definition kids :: "node \<Rightarrow> node list" where
  "kids obj = (case children obj of Some cs \<Rightarrow> cs | None \<Rightarrow> [])"

definition set_children :: "node \<Rightarrow> node list \<Rightarrow> node" where
  "set_children obj cs =
     Node (ref obj) (isText obj) (toStr obj) (parentId obj) (props obj) (getBounds obj)
       (frameBounds obj) (Some cs)"

lemma size_children: "children obj = Some cs \<Longrightarrow> size_list size cs < size obj"
  by (cases obj) simp

lemma size_kids: "c \<in> set (kids obj) \<Longrightarrow> size c < size obj"
proof -
  assume c: "c \<in> set (kids obj)"
  then obtain cs where cs: "children obj = Some cs" and mem: "c \<in> set cs"
    by (cases "children obj") (auto simp: kids_def)
  from mem have "size c < Suc (size_list size cs)"
    by (induction cs) auto
  with size_children [OF cs] show ?thesis by simp
qed

section \<open>The inspector\<close>

text \<open>
  What the overlay layer holds: shapes and numeric labels drawn around a node, and one
  info container per node with a text line per displayed member. \<open>pname\<close> is the
  \<open>name\<close> the code gives the object, \<open>owner\<close> the identity of the node it was made
  for, \<open>color\<close> the nest colour (undefined when the colour table has no entry).
  Coordinates, measured sizes and the digits of the numeric labels are floating-point
  results of the host library and are left out. \<open>lkey\<close> is the member a line shows;
  the background shape, the first child of an info container, is left implicit.
\<close>

datatype text_line = Line (lname: string) (lkey: string) (content: string)
  (lcolor: "string option")

datatype prim =
    Shape (pname: string) (owner: nat) (color: "string option")
  | Label (pname: string) (owner: nat) (color: "string option")
  | InfoContainer (pname: string) (owner: nat) (panel: "text_line list")

text \<open>
  The listeners of the stage's \<open>drawstart\<close> event: the inspector's own bound
  \<open>_updateDisplay\<close>, or a listener of the application.
\<close>

datatype listener = UpdateDisplay | Other nat

text \<open>
  The state an inspector reads and writes. \<open>stage\<close> is \<open>this._stage\<close>, whose child
  list the inspector changes; \<open>container\<close> is \<open>this._container\<close>, created once by the
  constructor, with the display objects it holds as its children. The stage's child
  list holds the container itself, so a change of the container is written to that
  child as well (\<open>write_container\<close> below). \<open>overlay\<close> lists the children of the
  container again, as the primitives they are. \<open>listeners\<close> are the \<open>drawstart\<close>
  listeners of the stage; \<open>propFilters\<close> gives the truthiness of
  \<open>this.propFilters[key]\<close>; \<open>filters\<close> is \<open>this._filters\<close>, \<open>None\<close> when it is
  undefined or null; \<open>fresh\<close> is the number the host library gives the next display
  object it creates, as identity and as \<open>id\<close>.
\<close>

record inspector =
  stage :: node
  propFilters :: "string \<Rightarrow> bool"
  nestColors :: "string list"
  container :: node
  overlay :: "prim list"
  updateOnDraw :: bool
  filters :: "jsval list option"
  listeners :: "listener list"
  fresh :: nat

section \<open>Searching the stage tree\<close>

text \<open>
  \<open>_searchForObject\<close>: the node itself when the predicate holds of it, otherwise the
  children in order, the loop stopping at the first child whose subtree gives a result.
\<close>

function searchForObject :: "node \<Rightarrow> (node \<Rightarrow> bool) \<Rightarrow> node option"
  and searchForObject_loop :: "node list \<Rightarrow> (node \<Rightarrow> bool) \<Rightarrow> node option" where
  "searchForObject obj func =
     (if func obj then Some obj
      else case children obj of
             Some cs \<Rightarrow> searchForObject_loop cs func
           | None \<Rightarrow> None)"
| "searchForObject_loop [] func = None"
| "searchForObject_loop (child # rest) func =
     (case searchForObject child func of
        Some back \<Rightarrow> Some back
      | None \<Rightarrow> searchForObject_loop rest func)"
  by pat_completeness auto
termination
  by (relation "measure (\<lambda>x. case x of Inl (obj, _) \<Rightarrow> 2 * size obj
                                   | Inr (cs, _) \<Rightarrow> 2 * size_list size cs + 1)")
     (auto dest: size_children)

text \<open>
  \<open>_searchForObjects\<close>: \<open>back\<close> starts empty; a matching node is pushed and its
  children are not looked at, otherwise the results of the children are concatenated to
  \<open>back\<close> in order.
\<close>

function searchForObjects :: "node \<Rightarrow> (node \<Rightarrow> bool) \<Rightarrow> node list"
  and searchForObjects_loop :: "node list \<Rightarrow> (node \<Rightarrow> bool) \<Rightarrow> node list \<Rightarrow> node list" where
  "searchForObjects obj func =
     (if func obj then [] @ [obj]
      else case children obj of
             Some cs \<Rightarrow> searchForObjects_loop cs func []
           | None \<Rightarrow> [])"
| "searchForObjects_loop [] func back = back"
| "searchForObjects_loop (child # rest) func back =
     searchForObjects_loop rest func (back @ searchForObjects child func)"
  by pat_completeness auto
termination
  by (relation "measure (\<lambda>x. case x of Inl (obj, _) \<Rightarrow> 2 * size obj
                                   | Inr (cs, _, _) \<Rightarrow> 2 * size_list size cs + 1)")
     (auto dest: size_children)

text \<open>
  \<open>String.prototype.toLowerCase\<close> on the ASCII letters; other characters are left as
  they are (no character outside \<open>A\<close>..\<open>Z\<close> lowers to a letter of \<open>stage\<close>).
\<close>

definition lower_char :: "char \<Rightarrow> char" where
  "lower_char c =
     (case map_of (zip ''ABCDEFGHIJKLMNOPQRSTUVWXYZ'' ''abcdefghijklmnopqrstuvwxyz'') c of
        Some l \<Rightarrow> l
      | None \<Rightarrow> c)"

definition toLowerCase :: "string \<Rightarrow> string" where
  "toLowerCase s = map lower_char s"

text \<open>\<open>getObjectByName\<close>, \<open>getObjectById\<close> and \<open>getObjectsByCustomSearch\<close>.\<close>

definition getObjectByName :: "inspector \<Rightarrow> string \<Rightarrow> node option" where
  "getObjectByName si name =
     (if toLowerCase name = ''stage'' then Some (stage si)
      else searchForObject (stage si) (\<lambda>obj. strict_eq (field obj ''name'') (JStr name)))"

definition getObjectById :: "inspector \<Rightarrow> int \<Rightarrow> node option" where
  "getObjectById si i =
     searchForObject (stage si) (\<lambda>obj. strict_eq (field obj ''id'') (JNum i))"

definition getObjectsByCustomSearch :: "inspector \<Rightarrow> (node \<Rightarrow> bool) \<Rightarrow> node list" where
  "getObjectsByCustomSearch si func = searchForObjects (stage si) func"

subsection \<open>Reference orders\<close>

text \<open>
  The depth-first pre-order listing of a tree (a node before its children, the children
  left to right), and the same listing with every node paired with the chain of its
  proper ancestors below the root of the listing.
\<close>

function preorder :: "node \<Rightarrow> node list" where
  "preorder obj = obj # concat (map preorder (kids obj))"
  by pat_completeness auto
termination
  by (relation "measure size") (auto dest: size_kids)

function preorder_paths :: "node list \<Rightarrow> node \<Rightarrow> (node list \<times> node) list" where
  "preorder_paths anc obj =
     (anc, obj) # concat (map (preorder_paths (anc @ [obj])) (kids obj))"
  by pat_completeness auto
termination
  by (relation "measure (\<lambda>(anc, obj). size obj)") (auto dest: size_kids)

declare preorder.simps [simp del] preorder_paths.simps [simp del]

text \<open>
  The matches the multi-match search is specified to report: in pre-order, the nodes
  that satisfy the predicate and have no proper ancestor that satisfies it.
\<close>

definition outermost_matches :: "node \<Rightarrow> (node \<Rightarrow> bool) \<Rightarrow> node list" where
  "outermost_matches root func =
     map snd (filter (\<lambda>(anc, obj). func obj \<and> \<not> list_ex func anc) (preorder_paths [] root))"

section \<open>Filters and nest colours\<close>

text \<open>
  \<open>_checkFilters\<close>. The loop runs while \<open>i < this._filters.length && !back\<close>; the
  model returns the final \<open>i\<close> beside \<open>back\<close>, so that the number of entries the loop
  looked at can be stated. \<open>obj === filter\<close> compares the node, an object, with the
  entry.
\<close>

function checkFilters_loop :: "node \<Rightarrow> jsval list \<Rightarrow> nat \<Rightarrow> bool \<Rightarrow> nat \<times> bool" where
  "checkFilters_loop obj fs i back =
     (if i < length fs \<and> \<not> back then
        (let flt = fs ! i in
           checkFilters_loop obj fs (i + 1)
             (if isNumber flt then strict_eq (field obj ''id'') flt
              else if isString flt then strict_eq (field obj ''name'') flt
              else strict_eq (JObj (ref obj)) flt))
      else (i, back))"
  by pat_completeness auto
termination
  by (relation "measure (\<lambda>(obj, fs, i, back). length fs - i)") auto

declare checkFilters_loop.simps [simp del]

definition checkFilters :: "jsval list \<Rightarrow> node \<Rightarrow> bool" where
  "checkFilters fs obj = snd (checkFilters_loop obj fs 0 False)"

text \<open>
  When an entry matches a node, in the words of the specification: a number equal to the
  id, a string equal to the name, or the node itself.
\<close>

definition matches_entry :: "node \<Rightarrow> jsval \<Rightarrow> bool" where
  "matches_entry obj e =
     (case e of
        JNum k \<Rightarrow> field obj ''id'' = JNum k
      | JStr s \<Rightarrow> field obj ''name'' = JStr s
      | JObj r \<Rightarrow> r = ref obj
      | _ \<Rightarrow> False)"

text \<open>\<open>includeObj = !this._filters || this._checkFilters(obj)\<close>.\<close>

definition includeObj :: "inspector \<Rightarrow> node \<Rightarrow> bool" where
  "includeObj si obj = (case filters si of None \<Rightarrow> True | Some fs \<Rightarrow> checkFilters fs obj)"

text \<open>Reading an array at an index: undefined (\<open>None\<close>) outside the array.\<close>

definition array_get :: "'a list \<Rightarrow> int \<Rightarrow> 'a option" where
  "array_get xs i = (if 0 \<le> i \<and> i < int (length xs) then Some (xs ! nat i) else None)"

text \<open>\<open>_getNestColor\<close>.\<close>

definition getNestColor :: "inspector \<Rightarrow> int \<Rightarrow> string option" where
  "getNestColor si nestLevel =
     (if nestLevel > int (length (nestColors si)) - 1
      then array_get (nestColors si) (int (length (nestColors si)) - 1)
      else array_get (nestColors si) nestLevel)"

section \<open>Building the overlay\<close>

text \<open>
  The test \<open>_addObjectToContainer\<close> makes before it asks for the bounds: the node
  has a non-empty \<open>frameBounds\<close> table and its \<open>currentFrame\<close> is an integer past
  the end of the table.
\<close>

definition frameOverrun :: "node \<Rightarrow> bool" where
  "frameOverrun obj =
     (case frameBounds obj of
        Some fb \<Rightarrow>
          length fb > 0
          \<and> (case field obj ''currentFrame'' of
                JNum frame \<Rightarrow> frame \<ge> int (length fb)
              | _ \<Rightarrow> False)
      | None \<Rightarrow> False)"

text \<open>
  The bounds \<open>_addObjectToContainer\<close> works with: the last entry of \<open>frameBounds\<close>
  on a frame overrun, otherwise what \<open>getBounds()\<close> returns, and undefined when it
  throws.
\<close>

definition resolveBounds :: "node \<Rightarrow> rect option" where
  "resolveBounds obj =
     (if frameOverrun obj then
        (case frameBounds obj of Some fb \<Rightarrow> fb ! (length fb - 1) | None \<Rightarrow> None)
      else
        (case getBounds obj of Returns b \<Rightarrow> b | Throws \<Rightarrow> None))"

text \<open>The five displays drawn outside the info container; each appends to the layer.\<close>

definition displayBounds :: "prim list \<Rightarrow> node \<Rightarrow> string option \<Rightarrow> prim list" where
  "displayBounds cont obj nestColor =
     cont @ [Shape (''si_bounds_'' @ js_toString (field obj ''id'')) (ref obj) nestColor]
          @ [Label (''si_boundsPos_'' @ js_toString (field obj ''id'')) (ref obj) nestColor]"

definition displayPos :: "prim list \<Rightarrow> node \<Rightarrow> string option \<Rightarrow> prim list" where
  "displayPos cont obj nestColor =
     cont @ [Shape (''si_posMarker_'' @ js_toString (field obj ''id'')) (ref obj) nestColor]
          @ [Label (''si_pos_'' @ js_toString (field obj ''id'')) (ref obj) nestColor]"

definition displayRegPos :: "prim list \<Rightarrow> node \<Rightarrow> string option \<Rightarrow> prim list" where
  "displayRegPos cont obj nestColor =
     cont @ [Shape (''si_posMarker_'' @ js_toString (field obj ''id'')) (ref obj) nestColor]
          @ [Label (''si_regPosText_'' @ js_toString (field obj ''id'')) (ref obj) nestColor]"

definition displayWidth :: "prim list \<Rightarrow> node \<Rightarrow> string option \<Rightarrow> prim list" where
  "displayWidth cont obj nestColor =
     cont @ [Label (''si_width_'' @ js_toString (field obj ''id'')) (ref obj) nestColor]"

definition displayHeight :: "prim list \<Rightarrow> node \<Rightarrow> string option \<Rightarrow> prim list" where
  "displayHeight cont obj nestColor =
     cont @ [Label (''si_height_'' @ js_toString (field obj ''id'')) (ref obj) nestColor]"

text \<open>
  The two displays of the info container. Each adds one text to the container and
  returns the next \<open>y\<close>; the measured line height of the host is positive and counts as
  one unit. \<open>_displayMember\<close> shows a number that is not integral with three
  decimals; the numbers of this model are integers and are shown as they are.
\<close>

definition displayParentId ::
  "text_line list \<Rightarrow> node \<Rightarrow> nat \<Rightarrow> string option \<Rightarrow> text_line list \<times> nat" where
  "displayParentId cont obj nextY nestColor =
     (cont @ [Line (''si_parentId_'' @ js_toString (field obj ''id'')) ''parentId''
                (''Parent ID: '' @ js_toString (parentId obj)) nestColor],
      nextY + 1)"

definition displayMember ::
  "text_line list \<Rightarrow> node \<Rightarrow> nat \<Rightarrow> string \<Rightarrow> string option \<Rightarrow> text_line list \<times> nat" where
  "displayMember cont obj nextY member nestColor =
     (cont @ [Line (''si_'' @ member @ ''_'' @ js_toString (field obj ''id'')) member
                (member @ '': '' @ js_toString (field obj member)) nestColor],
      nextY + 1)"

text \<open>
  The body of the loop over \<open>Object.keys(obj)\<close>: a key that does not start with an
  underscore and is not one of \<open>specialKeys\<close> is displayed when its property filter is
  truthy and its value is not an object.
\<close>

definition specialKeys :: "string list" where
  "specialKeys = [''id'', ''name'']"

definition displayKey ::
  "inspector \<Rightarrow> node \<Rightarrow> string option \<Rightarrow> string \<Rightarrow> text_line list \<times> nat
     \<Rightarrow> text_line list \<times> nat" where
  "displayKey si obj nestColor key acc =
     (if (case key of [] \<Rightarrow> True | c # _ \<Rightarrow> c \<noteq> CHR ''_'') \<and> key \<notin> set specialKeys then
        (if propFilters si key \<and> \<not> isObject (field obj key)
         then displayMember (fst acc) obj (snd acc) key nestColor
         else acc)
      else acc)"

text \<open>The lines of the info container of a node, with the final \<open>nextY\<close>.\<close>

definition infoLines :: "inspector \<Rightarrow> node \<Rightarrow> string option \<Rightarrow> text_line list \<times> nat" where
  "infoLines si obj nestColor =
     (let a0 = ([], 0);
          a1 = (if propFilters si ''id''
                then displayMember (fst a0) obj (snd a0) ''id'' nestColor else a0);
          a2 = (if propFilters si ''name''
                then displayMember (fst a1) obj (snd a1) ''name'' nestColor else a1);
          a3 = (if propFilters si ''parentId''
                then displayParentId (fst a2) obj (snd a2) nestColor else a2)
      in fold (displayKey si obj nestColor) (map fst (props obj)) a3)"

text \<open>
  What \<open>_addObjectToContainer\<close> does for an included node with bounds, after the
  children: the enabled displays, then the info container when it has a line.
\<close>

definition annotate :: "inspector \<Rightarrow> prim list \<Rightarrow> node \<Rightarrow> int \<Rightarrow> prim list" where
  "annotate si cont obj nestLevel =
     (let nestColor = getNestColor si nestLevel;
          c1 = (if propFilters si ''bounds'' then displayBounds cont obj nestColor else cont);
          c2 = (if propFilters si ''pos'' then displayPos c1 obj nestColor else c1);
          c3 = (if propFilters si ''regPos'' then displayRegPos c2 obj nestColor else c2);
          c4 = (if propFilters si ''width'' then displayWidth c3 obj nestColor else c3);
          c5 = (if propFilters si ''height'' then displayHeight c4 obj nestColor else c4);
          info = infoLines si obj nestColor
      in if snd info > 0
         then c5 @ [InfoContainer (''si_infoContainer_'' @ js_toString (field obj ''id''))
                      (ref obj) (fst info)]
         else c5)"

text \<open>
  \<open>_addObjectToContainer\<close>: the children first, each at the next nesting level, then
  the node itself when the filters include it and it has bounds.
\<close>

function addObjectToContainer :: "inspector \<Rightarrow> prim list \<Rightarrow> node \<Rightarrow> int \<Rightarrow> prim list"
  and addObjectToContainer_forEach ::
    "inspector \<Rightarrow> prim list \<Rightarrow> node list \<Rightarrow> int \<Rightarrow> prim list" where
  "addObjectToContainer si cont obj nestLevel =
     (let cont1 = (case children obj of
                     Some cs \<Rightarrow> addObjectToContainer_forEach si cont cs (nestLevel + 1)
                   | None \<Rightarrow> cont)
      in if includeObj si obj then
           (case resolveBounds obj of
              None \<Rightarrow> cont1
            | Some bounds \<Rightarrow> annotate si cont1 obj nestLevel)
         else cont1)"
| "addObjectToContainer_forEach si cont [] nestLevel = cont"
| "addObjectToContainer_forEach si cont (child # rest) nestLevel =
     addObjectToContainer_forEach si (addObjectToContainer si cont child nestLevel) rest nestLevel"
  by pat_completeness auto
termination
  by (relation "measure (\<lambda>x. case x of Inl (si, cont, obj, l) \<Rightarrow> 2 * size obj
                                   | Inr (si, cont, cs, l) \<Rightarrow> 2 * size_list size cs + 1)")
     (auto dest: size_children)

subsection \<open>The display objects of the layer\<close>

text \<open>
  Every primitive is a display object that the code creates with \<open>new\<close> and adds to
  the container, so it is a node of the stage tree while the container is a child of the
  stage. The host library gives a new object an identity and an \<open>id\<close> that no object
  had before, here the next number of \<open>fresh\<close>, in the order of creation: the shapes
  and texts of a node in the order they are added, then the info container, its
  background shape and its lines. (An info container that ends without a line is created
  and dropped; the numbers the host spends on it are not counted.) The code sets the
  name; of what the host sets, the model keeps the \<open>id\<close> and whether there are bounds:
  a shape has none, a text has its measured rectangle, a container has bounds when one
  of its children has. The measured numbers are not modelled and \<open>measured\<close> stands for
  them; the string a text turns into depends on its text and is never read by the
  inspector, which names texts by their \<open>name\<close>.
\<close>

definition measured :: rect where
  "measured = (0, 0, 0, 0)"

definition hasBounds :: "node \<Rightarrow> bool" where
  "hasBounds obj = (case getBounds obj of Returns (Some b) \<Rightarrow> True | _ \<Rightarrow> False)"

definition childBounds :: "node list \<Rightarrow> accessor" where
  "childBounds cs = (if list_ex hasBounds cs then Returns (Some measured) else Returns None)"

definition made_shape :: "nat \<Rightarrow> jsval \<Rightarrow> jsval \<Rightarrow> node" where
  "made_shape n pid nm =
     Node n False (''[Shape (name='' @ js_toString nm @ '')]'') pid
       [(''id'', JNum (int n)), (''name'', nm)] (Returns None) None None"

definition made_text :: "nat \<Rightarrow> jsval \<Rightarrow> string \<Rightarrow> node" where
  "made_text n pid nm =
     Node n True ''[Text]'' pid
       [(''id'', JNum (int n)), (''name'', JStr nm)] (Returns (Some measured)) None None"

definition made_container :: "nat \<Rightarrow> jsval \<Rightarrow> string \<Rightarrow> node list \<Rightarrow> node" where
  "made_container n pid nm cs =
     Node n False (''[Container (name='' @ nm @ '')]'') pid
       [(''id'', JNum (int n)), (''name'', JStr nm)] (childBounds cs) None (Some cs)"

text \<open>
  The display object of one primitive, made with the number \<open>n\<close> as a child of the
  object with id \<open>pid\<close>, and the next free number; and the same for a list.
\<close>

fun create_one :: "nat \<Rightarrow> jsval \<Rightarrow> prim \<Rightarrow> node \<times> nat" where
  "create_one n pid (Shape nm ow col) = (made_shape n pid (JStr nm), n + 1)"
| "create_one n pid (Label nm ow col) = (made_text n pid nm, n + 1)"
| "create_one n pid (InfoContainer nm ow ls) =
     (made_container n pid nm
        (made_shape (n + 1) (JNum (int n)) JNull
         # map (\<lambda>(k, l). made_text k (JNum (int n)) (lname l)) (enumerate (n + 2) ls)),
      n + 2 + length ls)"

fun create :: "nat \<Rightarrow> jsval \<Rightarrow> prim list \<Rightarrow> node list \<times> nat" where
  "create n pid [] = ([], n)"
| "create n pid (p # ps) =
     (let (x, n1) = create_one n pid p;
          (xs, n2) = create n1 pid ps
      in (x # xs, n2))"

text \<open>
  A container with a new child list. A change of the inspector's container is a change
  of the one object: it is written to \<open>container\<close> and to the child of the stage that
  is the container.
\<close>

definition with_children :: "node \<Rightarrow> node list \<Rightarrow> node" where
  "with_children c cs =
     Node (ref c) (isText c) (toStr c) (parentId c) (props c) (childBounds cs)
       (frameBounds c) (Some cs)"

definition replace_child :: "node \<Rightarrow> node \<Rightarrow> node" where
  "replace_child c obj =
     Node (ref obj) (isText obj) (toStr obj) (parentId obj) (props obj) (getBounds obj)
       (frameBounds obj)
       (map_option (map (\<lambda>x. if ref x = ref c then c else x)) (children obj))"

definition write_container :: "inspector \<Rightarrow> node \<Rightarrow> inspector" where
  "write_container si c = si\<lparr>container := c, stage := replace_child c (stage si)\<rparr>"

text \<open>\<open>this._container.removeAllChildren()\<close>.\<close>

definition removeAllChildren :: "inspector \<Rightarrow> inspector" where
  "removeAllChildren si =
     write_container (si\<lparr>overlay := []\<rparr>) (with_children (container si) [])"

text \<open>
  \<open>_updateDisplay\<close>: the container is emptied, then every child of the stage that is
  not the container is added at nesting level 0; the primitives this appends are created
  as display objects and are the children of the container.
\<close>

definition updateDisplay :: "inspector \<Rightarrow> inspector" where
  "updateDisplay si =
     (let si0 = removeAllChildren si;
          prims = fold (\<lambda>child cont.
                          if ref child \<noteq> ref (container si0)
                          then addObjectToContainer si0 cont child 0 else cont)
                    (kids (stage si0)) [];
          made = create (fresh si0) (field (container si0) ''id'') prims
      in write_container (si0\<lparr>overlay := prims, fresh := snd made\<rparr>)
           (with_children (container si0) (fst made)))"

subsection \<open>Reference order for the overlay\<close>

text \<open>
  The keys of a node that the loop over \<open>Object.keys(obj)\<close> displays, and the keys of
  the displays that are drawn outside the info container.
\<close>

definition shown_key :: "inspector \<Rightarrow> node \<Rightarrow> string \<Rightarrow> bool" where
  "shown_key si obj key =
     ((case key of [] \<Rightarrow> True | c # _ \<Rightarrow> c \<noteq> CHR ''_'')
      \<and> key \<noteq> ''id'' \<and> key \<noteq> ''name''
      \<and> propFilters si key \<and> \<not> isObject (field obj key))"

definition structuralKeys :: "string list" where
  "structuralKeys = [''bounds'', ''pos'', ''regPos'', ''width'', ''height'']"

text \<open>
  The primitives a node contributes by itself, and the post-order listing of a tree
  with the nesting level of every node.
\<close>

definition own_prims :: "inspector \<Rightarrow> node \<Rightarrow> int \<Rightarrow> prim list" where
  "own_prims si obj nestLevel =
     (if includeObj si obj \<and> resolveBounds obj \<noteq> None then annotate si [] obj nestLevel
      else [])"

function postorder :: "int \<Rightarrow> node \<Rightarrow> (int \<times> node) list" where
  "postorder nestLevel obj =
     concat (map (postorder (nestLevel + 1)) (kids obj)) @ [(nestLevel, obj)]"
  by pat_completeness auto
termination
  by (relation "measure (\<lambda>(l, obj). size obj)") (auto dest: size_kids)

declare postorder.simps [simp del]

section \<open>Showing and hiding the overlay\<close>

text \<open>
  The operations of the host library the inspector calls on the stage and on its
  container. \<open>removeEventListener\<close> takes out the first registration of the listener;
  \<open>addEventListener\<close> takes out an earlier registration before it appends the
  listener; \<open>removeChild\<close> takes out the first child that is the given object and
  leaves the list alone when there is none; \<open>addChild\<close> takes the child out of its
  parent before it appends it.
\<close>

definition removeEventListener :: "listener \<Rightarrow> listener list \<Rightarrow> listener list" where
  "removeEventListener l ls = remove1 l ls"

definition addEventListener :: "listener \<Rightarrow> listener list \<Rightarrow> listener list" where
  "addEventListener l ls = removeEventListener l ls @ [l]"

fun removeChild :: "node \<Rightarrow> node list \<Rightarrow> node list" where
  "removeChild child [] = []"
| "removeChild child (c # cs) = (if ref c = ref child then cs else c # removeChild child cs)"

definition addChild :: "node \<Rightarrow> node list \<Rightarrow> node list" where
  "addChild child cs = removeChild child cs @ [child]"

text \<open>The getter \<open>showing\<close>: the container is the last child of the stage.\<close>

definition showing :: "inspector \<Rightarrow> bool" where
  "showing si =
     (length (kids (stage si)) > 0
      \<and> ref (kids (stage si) ! (length (kids (stage si)) - 1)) = ref (container si))"

text \<open>
  \<open>hide\<close>. \<open>this._container\<close> is set by the constructor and never cleared, so the
  outer test holds.
\<close>

definition hide :: "inspector \<Rightarrow> inspector" where
  "hide si =
     (let si1 = (if updateOnDraw si
                 then si\<lparr>listeners := removeEventListener UpdateDisplay (listeners si)\<rparr>
                 else si);
          si2 = removeAllChildren si1
      in si2\<lparr>stage := set_children (stage si2)
                          (removeChild (container si2) (kids (stage si2)))\<rparr>)"

text \<open>\<open>show\<close>.\<close>

definition show_overlay :: "inspector \<Rightarrow> jsval list option \<Rightarrow> inspector" where
  "show_overlay si flts =
     (let si1 = hide si;
          si2 = si1\<lparr>filters := flts\<rparr>;
          si3 = (if updateOnDraw si2
                 then si2\<lparr>listeners := addEventListener UpdateDisplay (listeners si2)\<rparr>
                 else updateDisplay si2)
      in si3\<lparr>stage := set_children (stage si3)
                          (addChild (container si3) (kids (stage si3)))\<rparr>)"

text \<open>The setter of \<open>updateOnDraw\<close>.\<close>

definition set_updateOnDraw :: "inspector \<Rightarrow> bool \<Rightarrow> inspector" where
  "set_updateOnDraw si val =
     (let si1 = (if showing si \<and> val \<noteq> updateOnDraw si then
                   (if updateOnDraw si
                    then si\<lparr>listeners := removeEventListener UpdateDisplay (listeners si)\<rparr>
                    else si\<lparr>listeners := addEventListener UpdateDisplay (listeners si)\<rparr>)
                 else si)
      in si1\<lparr>updateOnDraw := val\<rparr>)"

text \<open>
  A redraw of the stage runs the inspector's listener when it is registered; the
  application adds a display object of its own to the stage.
\<close>

definition drawstart :: "inspector \<Rightarrow> inspector" where
  "drawstart si = (if UpdateDisplay \<in> set (listeners si) then updateDisplay si else si)"

definition stage_addChild :: "inspector \<Rightarrow> node \<Rightarrow> inspector" where
  "stage_addChild si child =
     si\<lparr>stage := set_children (stage si) (addChild child (kids (stage si)))\<rparr>"

text \<open>
  The states the host library keeps the inspector in: the stage is a container, the
  overlay container stands at most once among its children, and the inspector's listener
  is registered at most once.
\<close>

definition well_formed :: "inspector \<Rightarrow> bool" where
  "well_formed si =
     (children (stage si) \<noteq> None
      \<and> length (filter (\<lambda>c. ref c = ref (container si)) (kids (stage si))) \<le> 1
      \<and> count_list (listeners si) UpdateDisplay \<le> 1)"

text \<open>
  The hidden state as an observer sees it: the container is empty and no child of the
  stage, and no redraw will fill it.
\<close>

definition hidden :: "inspector \<Rightarrow> bool" where
  "hidden si =
     (overlay si = []
      \<and> with_children (container si) [] = container si
      \<and> ref (container si) \<notin> ref ` set (kids (stage si))
      \<and> UpdateDisplay \<notin> set (listeners si))"

text \<open>
  The same inspector on the stage without the children that are the overlay container.
\<close>

definition without_layer :: "inspector \<Rightarrow> inspector" where
  "without_layer si =
     si\<lparr>stage :=
          Node (ref (stage si)) (isText (stage si)) (toStr (stage si)) (parentId (stage si))
            (props (stage si)) (getBounds (stage si)) (frameBounds (stage si))
            (map_option (filter (\<lambda>c. ref c \<noteq> ref (container si))) (children (stage si)))\<rparr>"

section \<open>Dumping to the console\<close>

text \<open>
  What the console receives: opened and closed groups, the reference logged after
  \<open>ref:\<close>, a label with the value appended to it, the bounds line, and plain text.
\<close>

datatype entry =
    Group string
  | GroupCollapsed string
  | GroupEnd
  | LogRef node
  | LogField string jsval
  | LogBounds "rect option"
  | LogText string

datatype js_error = TypeError

text \<open>
  \<open>_getObjectDisplayName\<close>. The argument is a display object or null; on null,
  \<open>obj.toString()\<close> throws a \<open>TypeError\<close>.
\<close>

definition getObjectDisplayName :: "node option \<Rightarrow> js_error + string" where
  "getObjectDisplayName arg =
     (case arg of
        None \<Rightarrow> Inl TypeError
      | Some obj \<Rightarrow>
          Inr ((if isText obj then ''[Text (name='' @ js_toString (field obj ''name'') @ '')]''
                else toStr obj)
               @ '' (id='' @ js_toString (field obj ''id'') @ '')''))"

text \<open>The name of a child inside \<open>_dumpObject\<close>, where the child is a display object.\<close>

definition childDisplayName :: "node \<Rightarrow> string" where
  "childDisplayName child =
     (case getObjectDisplayName (Some child) of Inr name \<Rightarrow> name | Inl _ \<Rightarrow> [])"

text \<open>
  \<open>_dumpObject\<close>: nothing for the container; otherwise the group, the reference, the
  fields (the bounds undefined when \<open>getBounds\<close> throws), the children collapsed.
\<close>

function dumpObject :: "inspector \<Rightarrow> node \<Rightarrow> string \<Rightarrow> bool \<Rightarrow> entry list"
  and dumpObject_forEach :: "inspector \<Rightarrow> node list \<Rightarrow> entry list" where
  "dumpObject si obj name expand =
     (if ref (container si) = ref obj then []
      else
        [if expand then Group name else GroupCollapsed name,
         LogRef obj,
         LogField ''visible:         '' (field obj ''visible''),
         LogField ''alpha:           '' (field obj ''alpha''),
         LogField ''x:               '' (field obj ''x''),
         LogField ''y:               '' (field obj ''y''),
         LogBounds (case getBounds obj of Returns b \<Rightarrow> b | Throws \<Rightarrow> None),
         LogField ''regX:            '' (field obj ''regX''),
         LogField ''regY:            '' (field obj ''regY''),
         LogField ''scaleX:          '' (field obj ''scaleX''),
         LogField ''scaleY:          '' (field obj ''scaleY''),
         LogField ''rotation:        '' (field obj ''rotation''),
         LogField ''transformMatrix: '' (field obj ''transformMatrix''),
         LogField ''mouseChildren:   '' (field obj ''mouseChildren''),
         LogField ''mouseEnabled:    '' (field obj ''mouseEnabled''),
         LogField ''cachedStatus:    '' (field obj ''cacheID''),
         LogField ''filters:         '' (field obj ''filters'')]
        @ (case children obj of
             Some cs \<Rightarrow> [Group ''Children:''] @ dumpObject_forEach si cs @ [GroupEnd]
           | None \<Rightarrow> [LogText ''Children: None''])
        @ [GroupEnd])"
| "dumpObject_forEach si [] = []"
| "dumpObject_forEach si (child # rest) =
     dumpObject si child (childDisplayName child) False @ dumpObject_forEach si rest"
  by pat_completeness auto
termination
  by (relation "measure (\<lambda>x. case x of Inl (si, obj, n, e) \<Rightarrow> 2 * size obj
                                   | Inr (si, cs) \<Rightarrow> 2 * size_list size cs + 1)")
     (auto dest: size_children)

text \<open>
  An entry of the array given to \<open>dump\<close>: an id, a name or a display object. A string
  is looked up by name and a number by id; the result may be null.
\<close>

datatype target = ById int | ByName string | Direct node

fun resolve :: "inspector \<Rightarrow> target \<Rightarrow> node option" where
  "resolve si (ByName name) = getObjectByName si name"
| "resolve si (ById i) = getObjectById si i"
| "resolve si (Direct obj) = Some obj"

text \<open>
  The \<open>forEach\<close> of \<open>dump\<close>: the console output so far, and the error that ended the
  loop when a call threw. The display name is computed before \<open>_dumpObject\<close> is called.
\<close>

fun dump_forEach :: "inspector \<Rightarrow> target list \<Rightarrow> entry list \<times> js_error option" where
  "dump_forEach si [] = ([], None)"
| "dump_forEach si (t # rest) =
     (case getObjectDisplayName (resolve si t) of
        Inl err \<Rightarrow> ([], Some err)
      | Inr name \<Rightarrow>
          (case resolve si t of
             Some obj \<Rightarrow>
               (let (out, err) = dump_forEach si rest
                in (dumpObject si obj name True @ out, err))
           | None \<Rightarrow> ([], Some TypeError)))"

text \<open>
  \<open>dump\<close>: with an array, a group around the reports of its entries, left open when
  the loop throws; without, one report rooted at the stage.
\<close>

definition dump :: "inspector \<Rightarrow> target list option \<Rightarrow> entry list \<times> js_error option" where
  "dump si objects =
     (case objects of
        Some objs \<Rightarrow>
          (case dump_forEach si objs of
             (out, None) \<Rightarrow> ([Group ''Display objects''] @ out @ [GroupEnd], None)
           | (out, Some err) \<Rightarrow> ([Group ''Display objects''] @ out, Some err))
      | None \<Rightarrow>
          (dumpObject si (stage si)
             (''Stage (id='' @ js_toString (field (stage si) ''id'') @ '')'') True,
           None))"

section \<open>An example scene\<close>

text \<open>
  A small stage used to run the definitions: a group without bounds of its own holding
  two shapes, and a further shape; and an inspector as its constructor leaves it.
\<close>

definition shape :: "nat \<Rightarrow> int \<Rightarrow> string \<Rightarrow> int \<Rightarrow> node" where
  "shape r i nm pid =
     Node r False ''[Shape]'' (JNum pid)
       [(''id'', JNum i), (''name'', JStr nm), (''x'', JNum 5), (''y'', JNum 5)]
       (Returns (Some (0, 0, 10, 10))) None None"

definition group :: "nat \<Rightarrow> int \<Rightarrow> string \<Rightarrow> int \<Rightarrow> node list \<Rightarrow> node" where
  "group r i nm pid cs =
     Node r False ''[Container]'' (JNum pid)
       [(''id'', JNum i), (''name'', JStr nm), (''x'', JNum 0), (''y'', JNum 0)]
       (Returns None) None (Some cs)"

definition group_a :: node where
  "group_a = group 2 2 ''a'' 1 [shape 3 3 ''target'' 2, shape 4 4 ''Stage'' 2]"

definition scene :: node where
  "scene = group 1 1 ''root'' 0 [group_a, shape 5 5 ''target'' 1]"

text \<open>
  A movie clip one frame past the end of its \<open>frameBounds\<close> table, whose
  \<open>getBounds\<close> throws, and a shape that carries a \<open>width\<close> field of its own.
\<close>

definition clip :: node where
  "clip =
     Node 7 False ''[MovieClip]'' (JNum 1)
       [(''id'', JNum 7), (''name'', JStr ''clip''), (''currentFrame'', JNum 1)]
       Throws (Some [Some (0, 0, 10, 10)]) (Some [])"

definition widget :: node where
  "widget =
     Node 8 False ''[Shape]'' (JNum 1)
       [(''id'', JNum 8), (''name'', JStr ''widget''), (''width'', JNum 100)]
       (Returns (Some (0, 0, 100, 20))) None None"

definition default_propFilters :: "string \<Rightarrow> bool" where
  "default_propFilters key =
     (key \<in> set [''bounds'', ''pos'', ''regPos'', ''width'', ''height'', ''name'', ''id'',
                 ''x'', ''y'', ''scaleX'', ''scaleY''])"

definition default_nestColors :: "string list" where
  "default_nestColors =
     [''#ff00ff'', ''#7e00ff'', ''#ff0083'', ''#03ff00'', ''#b300b3'', ''#5800b3'',
      ''#b3005c'', ''#02b300'', ''#4c004c'', ''#25004c'', ''#4c0027'', ''#004c00'']"

text \<open>The constructor, with the identity and the id the host gives the new container.\<close>

definition new_inspector :: "node \<Rightarrow> nat \<Rightarrow> int \<Rightarrow> inspector" where
  "new_inspector stg r i =
     \<lparr>stage = stg,
      propFilters = default_propFilters,
      nestColors = default_nestColors,
      container = Node r False ''[Container (name=si_ui_container)]'' JNull
                    [(''id'', JNum i), (''name'', JStr ''si_ui_container'')]
                    (Returns None) None (Some []),
      overlay = [],
      updateOnDraw = True,
      filters = None,
      listeners = [],
      fresh = Suc r\<rparr>"

definition example :: inspector where
  "example = new_inspector scene 9 9"

text \<open>
  The example after \<open>show()\<close>, in live mode and with \<open>updateOnDraw\<close> set to false
  before; and a state the public operations reach in which the listener is registered
  while \<open>updateOnDraw\<close> is false: after \<open>show()\<close> in live mode the application adds
  a child to the stage, so that the container is no longer the last child, and then
  \<open>updateOnDraw\<close> is set to false.
\<close>

definition shown :: inspector where
  "shown = show_overlay example None"

definition shown_fixed :: inspector where
  "shown_fixed = show_overlay (set_updateOnDraw example False) None"

definition leaking :: inspector where
  "leaking = set_updateOnDraw (stage_addChild shown (shape 6 6 ''late'' 1)) False"

section \<open>Properties of the searches\<close>

lemma find_append_first:
  "find P (xs @ ys) = (case find P xs of Some x \<Rightarrow> Some x | None \<Rightarrow> find P ys)"
  by (induction xs) auto

lemma searchForObject_find:
  "searchForObject obj func = find func (preorder obj)"
  "searchForObject_loop cs func = find func (concat (map preorder cs))"
proof (induction obj func and cs func rule: searchForObject_searchForObject_loop.induct)
  case (1 obj func)
  show ?case
  proof (cases "func obj")
    case True
    then show ?thesis by (simp add: preorder.simps [of obj])
  next
    case False
    show ?thesis
    proof (cases "children obj")
      case None
      with False show ?thesis by (simp add: preorder.simps [of obj] kids_def)
    next
      case (Some cs)
      with False "1.IH" [OF False Some] show ?thesis
        by (simp add: preorder.simps [of obj] kids_def)
    qed
  qed
next
  case (2 func)
  show ?case by simp
next
  case (3 child rest func)
  show ?case
  proof (cases "searchForObject child func")
    case None
    with "3.IH" show ?thesis by (simp add: find_append_first)
  next
    case (Some found)
    with "3.IH"(1) show ?thesis by (simp add: find_append_first)
  qed
qed

lemma searchForObjects_loop_concat:
  "searchForObjects_loop cs func acc = acc @ concat (map (\<lambda>c. searchForObjects c func) cs)"
  by (induction cs arbitrary: acc) auto

lemma searchForObjects_unfold:
  "searchForObjects obj func =
     (if func obj then [obj] else concat (map (\<lambda>c. searchForObjects c func) (kids obj)))"
  by (cases "children obj") (simp_all add: searchForObjects_loop_concat kids_def)

lemma paths_below_match:
  "list_ex func anc \<Longrightarrow>
   filter (\<lambda>(a, n). func n \<and> \<not> list_ex func a) (preorder_paths anc obj) = []"
proof (induction anc obj rule: preorder_paths.induct)
  case (1 anc obj)
  have "\<And>c. c \<in> set (kids obj) \<Longrightarrow>
      filter (\<lambda>(a, n). func n \<and> \<not> list_ex func a) (preorder_paths (anc @ [obj]) c) = []"
    using 1 by simp
  then show ?case using "1.prems"
    by (simp add: preorder_paths.simps [of anc obj] filter_concat)
qed

lemma paths_search:
  "\<not> list_ex func anc \<Longrightarrow>
   map snd (filter (\<lambda>(a, n). func n \<and> \<not> list_ex func a) (preorder_paths anc obj))
     = searchForObjects obj func"
proof (induction anc obj rule: preorder_paths.induct)
  case (1 anc obj)
  show ?case
  proof (cases "func obj")
    case True
    then have "list_ex func (anc @ [obj])" by simp
    then have "\<And>c. filter (\<lambda>(a, n). func n \<and> \<not> list_ex func a)
        (preorder_paths (anc @ [obj]) c) = []"
      by (rule paths_below_match)
    with True "1.prems" show ?thesis
      by (simp add: preorder_paths.simps [of anc obj] filter_concat
          searchForObjects_unfold [of obj] del: searchForObjects.simps)
  next
    case False
    with "1.prems" have "\<not> list_ex func (anc @ [obj])" by simp
    with "1.IH" have "\<And>c. c \<in> set (kids obj) \<Longrightarrow>
       map snd (filter (\<lambda>(a, n). func n \<and> \<not> list_ex func a)
         (preorder_paths (anc @ [obj]) c)) = searchForObjects c func"
      by simp
    with False show ?thesis
      by (simp add: preorder_paths.simps [of anc obj] filter_concat map_concat
          searchForObjects_unfold [of obj] del: searchForObjects.simps cong: map_cong)
  qed
qed

text \<open>
  Claim C9. For every tree and predicate, the multi-match search returns, in depth-first
  pre-order, exactly the matching nodes that have no matching proper ancestor: the root
  is reported when it matches (and then it is the only result), the children of a
  matching node are never searched, and every other match is reported.
\<close>

theorem searchForObjects_outermost_preorder:
  "searchForObjects root func = outermost_matches root func
   \<and> (func root \<longrightarrow> searchForObjects root func = [root])"
  by (simp add: outermost_matches_def paths_search searchForObjects_unfold [of root]
      del: searchForObjects.simps)

theorem searchForObjects_outermost_preorder_witness:
  "searchForObjects scene (\<lambda>obj. field obj ''name'' = JStr ''target'')
     = [shape 3 3 ''target'' 2, shape 5 5 ''target'' 1]
   \<and> (\<lambda>obj. ref obj \<le> 2) scene
   \<and> searchForObjects scene (\<lambda>obj. ref obj \<le> 2) = [scene]"
  using searchForObjects_outermost_preorder
      [of scene "\<lambda>obj. field obj ''name'' = JStr ''target''"]
    searchForObjects_outermost_preorder [of scene "\<lambda>obj. ref obj \<le> 2"]
  by (simp add: outermost_matches_def scene_def group_a_def group_def
      shape_def preorder_paths.simps kids_def field_def del: searchForObjects.simps)

lemma strict_eq_JStr: "strict_eq v (JStr s) = (v = JStr s)"
  by (cases v) auto

lemma strict_eq_JNum: "strict_eq v (JNum k) = (v = JNum k)"
  by (cases v) auto

text \<open>
  Claim C10. For every string whose lower-case form is \<open>stage\<close>, \<open>getObjectByName\<close>
  returns the stage itself without searching, whatever the names in the tree are; for
  every other string it returns the first node of the depth-first pre-order of the stage
  whose name is exactly the argument, and null (\<open>None\<close>) when there is none.
\<close>

theorem getObjectByName_stage_or_first:
  "(toLowerCase name = ''stage'' \<longrightarrow> getObjectByName si name = Some (stage si))
   \<and> (toLowerCase name \<noteq> ''stage'' \<longrightarrow>
        getObjectByName si name
          = find (\<lambda>obj. field obj ''name'' = JStr name) (preorder (stage si)))"
  by (simp add: getObjectByName_def searchForObject_find strict_eq_JStr
      del: searchForObject.simps)

theorem getObjectByName_stage_or_first_witness:
  "toLowerCase ''Stage'' = ''stage''
   \<and> getObjectByName example ''Stage'' = Some (stage example)
   \<and> toLowerCase ''target'' \<noteq> ''stage''
   \<and> getObjectByName example ''target'' = Some (shape 3 3 ''target'' 2)
   \<and> getObjectByName example ''none'' = None"
  using getObjectByName_stage_or_first [of "''Stage''" example]
    getObjectByName_stage_or_first [of "''target''" example]
    getObjectByName_stage_or_first [of "''none''" example]
  by (simp add: toLowerCase_def lower_char_def example_def new_inspector_def scene_def
      group_a_def group_def shape_def preorder.simps kids_def field_def)

section \<open>Properties of the filters and the nest colours\<close>

lemma filter_test_matches:
  "(if isNumber flt then strict_eq (field obj ''id'') flt
    else if isString flt then strict_eq (field obj ''name'') flt
    else strict_eq (JObj (ref obj)) flt) = matches_entry obj flt"
  by (cases flt) (auto simp: matches_entry_def strict_eq_JStr strict_eq_JNum)

lemma checkFilters_loop_found: "checkFilters_loop obj fs i True = (i, True)"
  by (simp add: checkFilters_loop.simps)

lemma checkFilters_loop_scan:
  "i \<le> length fs \<Longrightarrow>
   checkFilters_loop obj fs i False =
     (i + min (length (drop i fs))
            (Suc (length (takeWhile (\<lambda>e. \<not> matches_entry obj e) (drop i fs)))),
      list_ex (matches_entry obj) (drop i fs))"
proof (induction "length fs - i" arbitrary: i)
  case 0
  then show ?case by (simp add: checkFilters_loop.simps)
next
  case (Suc n)
  then have lt: "i < length fs" by simp
  then have d: "drop i fs = fs ! i # drop (Suc i) fs"
    by (simp add: Cons_nth_drop_Suc)
  show ?case
  proof (cases "matches_entry obj (fs ! i)")
    case True
    with lt show ?thesis
      by (subst checkFilters_loop.simps)
         (simp add: filter_test_matches checkFilters_loop_found d Let_def)
  next
    case False
    from Suc have "n = length fs - Suc i" and "Suc i \<le> length fs" by simp_all
    from Suc.hyps(1) [OF this] False lt show ?thesis
      by (subst checkFilters_loop.simps) (simp add: filter_test_matches d Let_def)
  qed
qed

text \<open>
  Claim C4. Without a filter specification every node is included. With one, a node is
  included exactly when some entry is a number equal to its id, a string equal to its
  name, or the node itself. The loop stops at the first matching entry: it has looked at
  the entries up to and including that one, and at all of them when none matches. The
  check reads the node and the entries and returns a truth value; it writes nothing.
\<close>

theorem includeObj_matches:
  "includeObj (si\<lparr>filters := None\<rparr>) obj
   \<and> (includeObj (si\<lparr>filters := Some fs\<rparr>) obj
        = ((\<exists>k. JNum k \<in> set fs \<and> field obj ''id'' = JNum k)
           \<or> (\<exists>s. JStr s \<in> set fs \<and> field obj ''name'' = JStr s)
           \<or> JObj (ref obj) \<in> set fs))
   \<and> fst (checkFilters_loop obj fs 0 False)
        = min (length fs) (Suc (length (takeWhile (\<lambda>e. \<not> matches_entry obj e) fs)))"
proof -
  have "list_ex (matches_entry obj) fs
        = ((\<exists>k. JNum k \<in> set fs \<and> field obj ''id'' = JNum k)
           \<or> (\<exists>s. JStr s \<in> set fs \<and> field obj ''name'' = JStr s)
           \<or> JObj (ref obj) \<in> set fs)"
    by (induction fs) (auto simp: matches_entry_def split: jsval.splits)
  then show ?thesis
    using checkFilters_loop_scan [of 0 fs obj]
    by (simp add: includeObj_def checkFilters_def)
qed

text \<open>
  On the shape with id 3 and name \<open>target\<close> the loop looks at two of these three
  entries and stops.
\<close>

lemma checkFilters_stops_at_match:
  "checkFilters_loop (shape 3 3 ''target'' 2) [JNaN, JStr ''target'', JNum 3] 0 False
     = (2, True)"
  by (simp add: checkFilters_loop.simps [of _ _ 0] checkFilters_loop.simps [of _ _ "Suc 0"]
      checkFilters_loop.simps [of _ _ "Suc (Suc 0)"] numeral_2_eq_2 shape_def field_def)

text \<open>
  Claim C5. For every non-empty colour table and every nesting depth \<open>d \<ge> 0\<close>, the
  nest colour is the entry at \<open>d\<close> when \<open>d\<close> is below the length of the table and the
  last entry otherwise.
\<close>

theorem getNestColor_clamped:
  "nestColors si \<noteq> [] \<Longrightarrow> 0 \<le> d \<Longrightarrow>
   (d < int (length (nestColors si)) \<longrightarrow> getNestColor si d = Some (nestColors si ! nat d))
   \<and> (d \<ge> int (length (nestColors si)) \<longrightarrow>
        getNestColor si d = Some (nestColors si ! (length (nestColors si) - 1)))"
  by (cases "nestColors si") (auto simp: getNestColor_def array_get_def nat_diff_distrib)

theorem getNestColor_clamped_witness:
  "nestColors example \<noteq> [] \<and> (0::int) \<le> 2 \<and> (0::int) \<le> 40
   \<and> (2::int) < int (length (nestColors example))
   \<and> getNestColor example 2 = Some ''#ff0083''
   \<and> (40::int) \<ge> int (length (nestColors example))
   \<and> getNestColor example 40 = Some ''#004c00''"
  using getNestColor_clamped [of example 2] getNestColor_clamped [of example 40]
  by (simp add: example_def new_inspector_def default_nestColors_def)

section \<open>Properties of the overlay\<close>

declare addObjectToContainer.simps(1) [simp del]

lemma annotate_append: "annotate si cont obj lvl = cont @ annotate si [] obj lvl"
  by (simp add: annotate_def displayBounds_def displayPos_def displayRegPos_def
      displayWidth_def displayHeight_def Let_def)

lemma addObjectToContainer_unfold:
  "addObjectToContainer si cont obj lvl =
     addObjectToContainer_forEach si cont (kids obj) (lvl + 1) @ own_prims si obj lvl"
proof (cases "children obj")
  case None
  then show ?thesis
    using annotate_append [of si cont obj lvl]
    by (cases "resolveBounds obj")
       (auto simp: addObjectToContainer.simps(1) own_prims_def kids_def Let_def)
next
  case (Some cs)
  then show ?thesis
    using annotate_append [of si "addObjectToContainer_forEach si cont cs (lvl + 1)" obj lvl]
    by (cases "resolveBounds obj")
       (auto simp: addObjectToContainer.simps(1) own_prims_def kids_def Let_def)
qed

lemma build_postorder:
  "addObjectToContainer si cont obj lvl =
     cont @ concat (map (\<lambda>(l, d). own_prims si d l) (postorder lvl obj))"
  "addObjectToContainer_forEach si cont cs lvl =
     cont @ concat (map (\<lambda>(l, d). own_prims si d l) (concat (map (postorder lvl) cs)))"
proof (induction si cont obj lvl and si cont cs lvl
    rule: addObjectToContainer_addObjectToContainer_forEach.induct)
  case (1 si cont obj nestLevel)
  show ?case
  proof (cases "children obj")
    case None
    then show ?thesis
      by (simp add: addObjectToContainer_unfold [of si cont obj] postorder.simps [of _ obj]
          kids_def)
  next
    case (Some cs)
    with "1.IH" [OF Some] show ?thesis
      by (simp add: addObjectToContainer_unfold [of si cont obj] postorder.simps [of _ obj]
          kids_def)
  qed
next
  case (2 si cont nestLevel)
  show ?case by simp
next
  case (3 si cont child rest nestLevel)
  then show ?case by simp
qed




lemma postorder_last:
  "\<exists>xs. postorder lvl obj = xs @ [(lvl, obj)]"
  by (simp add: postorder.simps [of lvl obj])

text \<open>
  Claim C8. The overlay is built depth-first with the children before their parent at
  every level: what \<open>_addObjectToContainer\<close> appends is the concatenation, in
  post-order, of what each node contributes, so for every parent and each of its
  children all primitives of the child are appended before any primitive of the parent.
\<close>

theorem children_before_parent:
  "addObjectToContainer si cont p lvl
     = cont @ concat (map (\<lambda>(l, d). own_prims si d l) (postorder lvl p))
   \<and> (\<forall>c \<in> set (kids p). \<exists>pre mid.
         addObjectToContainer si cont p lvl
           = cont @ pre @ own_prims si c (lvl + 1) @ mid @ own_prims si p lvl)"
proof (intro conjI ballI)
  show "addObjectToContainer si cont p lvl
     = cont @ concat (map (\<lambda>(l, d). own_prims si d l) (postorder lvl p))"
    by (rule build_postorder)
next
  fix c
  assume "c \<in> set (kids p)"
  then obtain xs ys where k: "kids p = xs @ c # ys"
    by (auto dest: split_list)
  obtain zs where z: "postorder (lvl + 1) c = zs @ [(lvl + 1, c)]"
    using postorder_last by blast
  let ?own = "\<lambda>(l, d). own_prims si d l"
  have "addObjectToContainer si cont p lvl
      = cont @ (concat (map ?own (concat (map (postorder (lvl + 1)) xs))) @ concat (map ?own zs))
          @ own_prims si c (lvl + 1)
          @ concat (map ?own (concat (map (postorder (lvl + 1)) ys)))
          @ own_prims si p lvl"
    by (simp add: addObjectToContainer_unfold [of si cont p] build_postorder(2) k z)
  then show "\<exists>pre mid. addObjectToContainer si cont p lvl
           = cont @ pre @ own_prims si c (lvl + 1) @ mid @ own_prims si p lvl"
    by blast
qed

subsection \<open>The overlay of the example scene\<close>

lemma example_simps:
  "stage example = scene" "filters example = None" "propFilters example = default_propFilters"
  "nestColors example = default_nestColors" "overlay example = []"
  "updateOnDraw example = True" "listeners example = []"
  "ref (container example) = 9"
  by (simp_all add: example_def new_inspector_def)

lemmas overlay_defs = own_prims_def includeObj_def resolveBounds_def
  frameOverrun_def annotate_def getNestColor_def array_get_def default_nestColors_def
  default_propFilters_def displayBounds_def displayPos_def displayRegPos_def
  displayWidth_def displayHeight_def infoLines_def displayMember_def displayParentId_def
  displayKey_def specialKeys_def field_def string_of_nat.simps Let_def

lemma own_shape3:
  "own_prims example (shape 3 3 ''target'' 2) 1 =
     [Shape ''si_bounds_3'' 3 (Some ''#7e00ff''), Label ''si_boundsPos_3'' 3 (Some ''#7e00ff''),
      Shape ''si_posMarker_3'' 3 (Some ''#7e00ff''), Label ''si_pos_3'' 3 (Some ''#7e00ff''),
      Shape ''si_posMarker_3'' 3 (Some ''#7e00ff''), Label ''si_regPosText_3'' 3 (Some ''#7e00ff''),
      Label ''si_width_3'' 3 (Some ''#7e00ff''), Label ''si_height_3'' 3 (Some ''#7e00ff''),
      InfoContainer ''si_infoContainer_3'' 3
        [Line ''si_id_3'' ''id'' ''id: 3'' (Some ''#7e00ff''),
         Line ''si_name_3'' ''name'' ''name: target'' (Some ''#7e00ff''),
         Line ''si_x_3'' ''x'' ''x: 5'' (Some ''#7e00ff''),
         Line ''si_y_3'' ''y'' ''y: 5'' (Some ''#7e00ff'')]]"
  by (simp add: overlay_defs example_simps shape_def)

lemma own_group_a: "own_prims example group_a 0 = []"
  by (simp add: overlay_defs example_simps group_a_def group_def)

theorem children_before_parent_witness:
  "shape 3 3 ''target'' 2 \<in> set (kids group_a)
   \<and> (\<exists>pre mid. addObjectToContainer example [] group_a 0
          = [] @ pre @ own_prims example (shape 3 3 ''target'' 2) (0 + 1) @ mid
              @ own_prims example group_a 0)
   \<and> own_prims example (shape 3 3 ''target'' 2) (0 + 1) \<noteq> []"
proof -
  have m: "shape 3 3 ''target'' 2 \<in> set (kids group_a)"
    by (simp add: group_a_def group_def kids_def)
  from children_before_parent [of example "[]" group_a 0]
  have "\<forall>c \<in> set (kids group_a). \<exists>pre mid.
      addObjectToContainer example [] group_a 0
        = [] @ pre @ own_prims example c (0 + 1) @ mid @ own_prims example group_a 0"
    by (rule conjunct2)
  from bspec [OF this m]
  have ex: "\<exists>pre mid. addObjectToContainer example [] group_a 0
          = [] @ pre @ own_prims example (shape 3 3 ''target'' 2) (0 + 1) @ mid
              @ own_prims example group_a 0" .
  have ne: "own_prims example (shape 3 3 ''target'' 2) (0 + 1) \<noteq> []"
    by (simp add: own_shape3)
  from m ex ne show ?thesis by (intro conjI)
qed

text \<open>
  Claim C3, amended. For every node whose bounds accessor yields undefined or null or
  throws, and which is not on a frame overrun (where the last entry of \<open>frameBounds\<close>
  stands in for the accessor), the overlay build contributes no primitive for the node
  itself; its children are processed as they are anywhere else, so every descendant is
  visited and each included descendant with bounds contributes its annotations.
\<close>

theorem unbounded_node_transparent:
  assumes "getBounds obj = Returns None \<or> getBounds obj = Throws"
    and "\<not> frameOverrun obj"
  shows "own_prims si obj lvl = []
    \<and> addObjectToContainer si cont obj lvl
        = addObjectToContainer_forEach si cont (kids obj) (lvl + 1)
    \<and> addObjectToContainer si cont obj lvl
        = cont @ concat (map (\<lambda>(l, d). own_prims si d l)
                          (concat (map (postorder (lvl + 1)) (kids obj))))
    \<and> (\<forall>(l, d) \<in> set (concat (map (postorder (lvl + 1)) (kids obj))).
          includeObj si d \<and> resolveBounds d \<noteq> None \<longrightarrow>
          own_prims si d l = annotate si [] d l)"
proof -
  from assms have "resolveBounds obj = None"
    by (auto simp: resolveBounds_def)
  then have own: "own_prims si obj lvl = []"
    by (simp add: own_prims_def)
  then show ?thesis
    by (auto simp: addObjectToContainer_unfold [of si cont obj] build_postorder(2)
        own_prims_def)
qed

theorem unbounded_node_transparent_witness:
  "(getBounds group_a = Returns None \<or> getBounds group_a = Throws)
   \<and> \<not> frameOverrun group_a
   \<and> own_prims example group_a 0 = []
   \<and> addObjectToContainer example [] group_a 0
        = addObjectToContainer_forEach example [] (kids group_a) (0 + 1)
   \<and> (1, shape 3 3 ''target'' 2) \<in> set (concat (map (postorder (0 + 1)) (kids group_a)))
   \<and> includeObj example (shape 3 3 ''target'' 2)
   \<and> resolveBounds (shape 3 3 ''target'' 2) \<noteq> None
   \<and> own_prims example (shape 3 3 ''target'' 2) 1
        = annotate example [] (shape 3 3 ''target'' 2) 1"
proof -
  have a: "getBounds group_a = Returns None \<or> getBounds group_a = Throws"
    by (simp add: group_a_def group_def)
  have b: "\<not> frameOverrun group_a"
    by (simp add: group_a_def group_def frameOverrun_def)
  have c: "(1, shape 3 3 ''target'' 2) \<in> set (concat (map (postorder (0 + 1)) (kids group_a)))"
    by (simp add: group_a_def group_def shape_def kids_def postorder.simps)
  have d: "includeObj example (shape 3 3 ''target'' 2)"
    by (simp add: includeObj_def example_simps)
  have e: "resolveBounds (shape 3 3 ''target'' 2) \<noteq> None"
    by (simp add: resolveBounds_def frameOverrun_def shape_def)
  note t = unbounded_node_transparent [OF a b, of example 0 "[]"]
  from t have "\<forall>(l, d) \<in> set (concat (map (postorder (0 + 1)) (kids group_a))).
      includeObj example d \<and> resolveBounds d \<noteq> None \<longrightarrow>
      own_prims example d l = annotate example [] d l"
    by blast
  from bspec [OF this c] d e
  have f: "own_prims example (shape 3 3 ''target'' 2) 1
        = annotate example [] (shape 3 3 ''target'' 2) 1"
    by simp
  from t a b c d e f show ?thesis by blast
qed

text \<open>
  The claim as first stated fails on a movie clip one frame past its table: its accessor
  throws, and the build annotates it from the last entry of \<open>frameBounds\<close>.
\<close>

theorem unbounded_node_counterexample:
  "getBounds clip = Throws
   \<and> addObjectToContainer example [] clip 0 =
       [Shape ''si_bounds_7'' 7 (Some ''#ff00ff''), Label ''si_boundsPos_7'' 7 (Some ''#ff00ff''),
        Shape ''si_posMarker_7'' 7 (Some ''#ff00ff''), Label ''si_pos_7'' 7 (Some ''#ff00ff''),
        Shape ''si_posMarker_7'' 7 (Some ''#ff00ff''),
        Label ''si_regPosText_7'' 7 (Some ''#ff00ff''),
        Label ''si_width_7'' 7 (Some ''#ff00ff''), Label ''si_height_7'' 7 (Some ''#ff00ff''),
        InfoContainer ''si_infoContainer_7'' 7
          [Line ''si_id_7'' ''id'' ''id: 7'' (Some ''#ff00ff''),
           Line ''si_name_7'' ''name'' ''name: clip'' (Some ''#ff00ff'')]]"
  by (simp add: addObjectToContainer.simps overlay_defs example_simps clip_def)

subsection \<open>The info panel\<close>

lemma displayKey_keys:
  "map lkey (fst (displayKey si obj c key acc))
     = map lkey (fst acc) @ (if shown_key si obj key then [key] else [])"
  by (cases key) (auto simp: displayKey_def shown_key_def displayMember_def specialKeys_def)

lemma fold_displayKey_keys:
  "map lkey (fst (fold (displayKey si obj c) keys acc))
     = map lkey (fst acc) @ filter (shown_key si obj) keys"
  by (induction keys arbitrary: acc) (simp_all add: displayKey_keys)

lemma infoLines_keys:
  "map lkey (fst (infoLines si obj c))
     = (if propFilters si ''id'' then [''id''] else [])
       @ (if propFilters si ''name'' then [''name''] else [])
       @ (if propFilters si ''parentId'' then [''parentId''] else [])
       @ filter (shown_key si obj) (map fst (props obj))"
  by (simp add: infoLines_def fold_displayKey_keys displayMember_def displayParentId_def
      Let_def)

lemma own_prims_panel:
  "InfoContainer nm r ls \<in> set (own_prims si obj lvl) \<Longrightarrow>
   ls = fst (infoLines si obj (getNestColor si lvl))"
  by (auto simp: own_prims_def annotate_def displayBounds_def displayPos_def
      displayRegPos_def displayWidth_def displayHeight_def Let_def split: if_splits)

lemma key_list_subset:
  "set ((if a then [x] else []) @ (if b then [y] else []) @ (if c then [z] else [])
        @ filter P ks) \<subseteq> {x, y, z} \<union> set ks"
  by (cases a; cases b; cases c) auto

lemma disjoint_from_parts:
  "L \<subseteq> K \<union> Q \<Longrightarrow> S \<inter> K = {} \<Longrightarrow> S \<inter> Q = {} \<longrightarrow> S \<inter> L = {}"
  by auto

text \<open>
  Claim C7, amended. For every annotated node that has no own field named \<open>bounds\<close>,
  \<open>pos\<close>, \<open>regPos\<close>, \<open>width\<close> or \<open>height\<close>, none of these keys has a line in
  the node's info panel. Whenever the \<open>id\<close> and \<open>name\<close> keys are enabled their
  lines come first, \<open>id\<close> before \<open>name\<close>, ahead of the parent id and of the lines
  of the remaining enabled keys, none of which is \<open>id\<close> or \<open>name\<close>.
\<close>

theorem info_panel_order:
  assumes "InfoContainer nm r ls \<in> set (own_prims si obj lvl)"
  shows "(set structuralKeys \<inter> fst ` set (props obj) = {} \<longrightarrow>
            set structuralKeys \<inter> lkey ` set ls = {})
    \<and> (propFilters si ''id'' \<and> propFilters si ''name'' \<longrightarrow>
          map lkey ls = ''id'' # ''name''
            # (if propFilters si ''parentId'' then [''parentId''] else [])
            @ filter (shown_key si obj) (map fst (props obj)))
    \<and> ''id'' \<notin> set (filter (shown_key si obj) (map fst (props obj)))
    \<and> ''name'' \<notin> set (filter (shown_key si obj) (map fst (props obj)))"
proof -
  from assms have ls: "ls = fst (infoLines si obj (getNestColor si lvl))"
    by (rule own_prims_panel)
  have keys: "map lkey ls
     = (if propFilters si ''id'' then [''id''] else [])
       @ (if propFilters si ''name'' then [''name''] else [])
       @ (if propFilters si ''parentId'' then [''parentId''] else [])
       @ filter (shown_key si obj) (map fst (props obj))"
    unfolding ls by (rule infoLines_keys)
  have "set (map lkey ls) \<subseteq> {''id'', ''name'', ''parentId''} \<union> set (map fst (props obj))"
    unfolding keys by (rule key_list_subset)
  then have sub: "lkey ` set ls \<subseteq> {''id'', ''name'', ''parentId''} \<union> fst ` set (props obj)"
    by (simp only: set_map)
  have s: "set structuralKeys \<inter> {''id'', ''name'', ''parentId''} = {}"
    by (simp add: structuralKeys_def)
  have a: "set structuralKeys \<inter> fst ` set (props obj) = {} \<longrightarrow>
            set structuralKeys \<inter> lkey ` set ls = {}"
    using sub s by (rule disjoint_from_parts)
  have b: "propFilters si ''id'' \<and> propFilters si ''name'' \<longrightarrow>
          map lkey ls = ''id'' # ''name''
            # (if propFilters si ''parentId'' then [''parentId''] else [])
            @ filter (shown_key si obj) (map fst (props obj))"
    unfolding keys by simp
  have c: "''id'' \<notin> set (filter (shown_key si obj) (map fst (props obj)))"
    "''name'' \<notin> set (filter (shown_key si obj) (map fst (props obj)))"
    by (simp_all add: shown_key_def)
  from a b c show ?thesis by (intro conjI)
qed

theorem info_panel_order_witness:
  "InfoContainer ''si_infoContainer_3'' 3
        [Line ''si_id_3'' ''id'' ''id: 3'' (Some ''#7e00ff''),
         Line ''si_name_3'' ''name'' ''name: target'' (Some ''#7e00ff''),
         Line ''si_x_3'' ''x'' ''x: 5'' (Some ''#7e00ff''),
         Line ''si_y_3'' ''y'' ''y: 5'' (Some ''#7e00ff'')]
     \<in> set (own_prims example (shape 3 3 ''target'' 2) 1)
   \<and> set structuralKeys \<inter> fst ` set (props (shape 3 3 ''target'' 2)) = {}
   \<and> propFilters example ''id'' \<and> propFilters example ''name''
   \<and> filter (shown_key example (shape 3 3 ''target'' 2))
        (map fst (props (shape 3 3 ''target'' 2))) = [''x'', ''y'']"
proof -
  let ?ls = "[Line ''si_id_3'' ''id'' ''id: 3'' (Some ''#7e00ff''),
         Line ''si_name_3'' ''name'' ''name: target'' (Some ''#7e00ff''),
         Line ''si_x_3'' ''x'' ''x: 5'' (Some ''#7e00ff''),
         Line ''si_y_3'' ''y'' ''y: 5'' (Some ''#7e00ff'')]"
  have m: "InfoContainer ''si_infoContainer_3'' 3 ?ls
     \<in> set (own_prims example (shape 3 3 ''target'' 2) 1)"
    by (simp add: own_shape3)
  have d: "set structuralKeys \<inter> fst ` set (props (shape 3 3 ''target'' 2)) = {}"
    by (simp add: structuralKeys_def shape_def)
  have e: "propFilters example ''id'' \<and> propFilters example ''name''"
    by (simp add: example_simps default_propFilters_def)
  note t = info_panel_order [OF m]
  from t d have "set structuralKeys \<inter> lkey ` set ?ls = {}" by blast
  from t e have "map lkey ?ls = ''id'' # ''name''
      # (if propFilters example ''parentId'' then [''parentId''] else [])
      @ filter (shown_key example (shape 3 3 ''target'' 2))
          (map fst (props (shape 3 3 ''target'' 2)))"
    by blast
  then have f: "filter (shown_key example (shape 3 3 ''target'' 2))
        (map fst (props (shape 3 3 ''target'' 2))) = [''x'', ''y'']"
    by (simp add: example_simps default_propFilters_def)
  from m d e f show ?thesis by (intro conjI) simp_all
qed

text \<open>
  The claim as first stated fails on a node with a \<open>width\<close> field of its own: the
  loop over its keys lists the field in the info panel like any other enabled key.
\<close>

theorem info_panel_counterexample:
  "''width'' \<in> set structuralKeys
   \<and> addObjectToContainer example [] widget 0 =
       [Shape ''si_bounds_8'' 8 (Some ''#ff00ff''), Label ''si_boundsPos_8'' 8 (Some ''#ff00ff''),
        Shape ''si_posMarker_8'' 8 (Some ''#ff00ff''), Label ''si_pos_8'' 8 (Some ''#ff00ff''),
        Shape ''si_posMarker_8'' 8 (Some ''#ff00ff''),
        Label ''si_regPosText_8'' 8 (Some ''#ff00ff''),
        Label ''si_width_8'' 8 (Some ''#ff00ff''), Label ''si_height_8'' 8 (Some ''#ff00ff''),
        InfoContainer ''si_infoContainer_8'' 8
          [Line ''si_id_8'' ''id'' ''id: 8'' (Some ''#ff00ff''),
           Line ''si_name_8'' ''name'' ''name: widget'' (Some ''#ff00ff''),
           Line ''si_width_8'' ''width'' ''width: 100'' (Some ''#ff00ff'')]]"
  by (simp add: addObjectToContainer.simps overlay_defs example_simps widget_def
      structuralKeys_def)

section \<open>The overlay container is never visited\<close>




lemma kids_replace_child:
  "kids (replace_child c obj) = map (\<lambda>x. if ref x = ref c then c else x) (kids obj)"
  by (cases "children obj") (simp_all add: kids_def replace_child_def)


lemma ref_with_children [simp]: "ref (with_children c cs) = ref c"
  by (simp add: with_children_def)

lemma removeAllChildren_simps [simp]:
  "container (removeAllChildren si) = with_children (container si) []"
  "stage (removeAllChildren si) = replace_child (with_children (container si) []) (stage si)"
  "filters (removeAllChildren si) = filters si"
  "propFilters (removeAllChildren si) = propFilters si"
  "nestColors (removeAllChildren si) = nestColors si"
  "fresh (removeAllChildren si) = fresh si"
  "listeners (removeAllChildren si) = listeners si"
  "updateOnDraw (removeAllChildren si) = updateOnDraw si"
  "overlay (removeAllChildren si) = []"
  by (simp_all add: removeAllChildren_def write_container_def)


lemma without_layer_simps [simp]:
  "kids (stage (without_layer si))
     = filter (\<lambda>c. ref c \<noteq> ref (container si)) (kids (stage si))"
  "ref (stage (without_layer si)) = ref (stage si)"
  "container (without_layer si) = container si"
  "filters (without_layer si) = filters si"
  "propFilters (without_layer si) = propFilters si"
  "nestColors (without_layer si) = nestColors si"
  by (cases "children (stage si)"; simp add: without_layer_def kids_def)+


lemma preorder_self: "obj \<in> set (preorder obj)"
  by (simp add: preorder.simps [of obj])


declare dumpObject.simps(1) [simp del]






text \<open>
  The primitives are objects of the stage tree while the container is shown and filled:
  a search by name finds them.
\<close>

lemma layer_objects_are_found:
  "getObjectByName shown_fixed ''si_bounds_3''
     = Some (made_shape 10 (JNum 9) (JStr ''si_bounds_3''))"
  "getObjectByName shown ''si_bounds_3'' = None"
  by code_simp+

section \<open>Properties of hiding\<close>

lemma kids_set_children [simp]: "kids (set_children obj cs) = cs"
  by (simp add: kids_def set_children_def)

lemma set_children_kids: "children obj \<noteq> None \<Longrightarrow> set_children obj (kids obj) = obj"
  by (cases obj) (auto simp: set_children_def kids_def)

lemma set_children_replace_child [simp]:
  "set_children (replace_child c obj) cs = set_children obj cs"
  by (simp add: set_children_def replace_child_def)

lemma set_children_twice [simp]: "set_children (set_children obj a) b = set_children obj b"
  by (simp add: set_children_def)

lemma with_children_twice [simp]: "with_children (with_children c a) b = with_children c b"
  by (simp add: with_children_def)

lemma map_replace_absent:
  "r \<notin> ref ` set cs \<Longrightarrow> map (\<lambda>x. if ref x = r then d else x) cs = cs"
  by (induction cs) auto

lemma replace_child_absent:
  "ref c \<notin> ref ` set (kids obj) \<Longrightarrow> replace_child c obj = obj"
proof (cases obj)
  case (Node r t s p f g fb ch)
  assume a: "ref c \<notin> ref ` set (kids obj)"
  show ?thesis
  proof (cases ch)
    case None
    with Node show ?thesis by (simp add: replace_child_def)
  next
    case (Some cs)
    with Node a have "map (\<lambda>x. if ref x = ref c then c else x) cs = cs"
      by (simp add: kids_def map_replace_absent)
    with Node Some show ?thesis by (simp add: replace_child_def)
  qed
qed

lemma removeChild_absent: "ref c \<notin> ref ` set cs \<Longrightarrow> removeChild c cs = cs"
  by (induction cs) auto

lemma removeChild_removes:
  "length (filter (\<lambda>x. ref x = ref c) cs) \<le> 1 \<Longrightarrow> ref c \<notin> ref ` set (removeChild c cs)"
proof (induction cs)
  case Nil
  then show ?case by simp
next
  case (Cons x xs)
  show ?case
  proof (cases "ref x = ref c")
    case True
    with Cons.prems have "filter (\<lambda>x. ref x = ref c) xs = []" by simp
    then have "ref c \<notin> ref ` set xs"
      unfolding filter_empty_conv by (metis imageE)
    with True show ?thesis by simp
  next
    case False
    with Cons show ?thesis by auto
  qed
qed

lemma replaced_same_refs:
  "filter (\<lambda>x. ref x = ref c) (map (\<lambda>x. if ref x = ref c then c else x) cs)
     = map (\<lambda>x. c) (filter (\<lambda>x. ref x = ref c) cs)"
  by (induction cs) simp_all

lemma remove1_removes: "count_list ls x \<le> 1 \<Longrightarrow> x \<notin> set (remove1 x ls)"
proof (induction ls)
  case Nil
  then show ?case by simp
next
  case (Cons y ys)
  show ?case
  proof (cases "y = x")
    case True
    with Cons.prems have "count_list ys x = 0" by simp
    then have "x \<notin> set ys" by (simp add: count_list_0_iff)
    with True show ?thesis by simp
  next
    case False
    with Cons show ?thesis by auto
  qed
qed

lemma hide_parts:
  "container (hide si) = with_children (container si) []"
  "overlay (hide si) = []"
  "updateOnDraw (hide si) = updateOnDraw si"
  "listeners (hide si) = (if updateOnDraw si then remove1 UpdateDisplay (listeners si)
                          else listeners si)"
  "stage (hide si) = set_children (stage si)
     (removeChild (container si)
        (map (\<lambda>x. if ref x = ref (container si) then with_children (container si) [] else x)
           (kids (stage si))))"
proof -
  have r: "removeChild (with_children c []) cs = removeChild c cs" for c cs
    by (induction cs) simp_all
  show "container (hide si) = with_children (container si) []"
    "overlay (hide si) = []"
    "updateOnDraw (hide si) = updateOnDraw si"
    "listeners (hide si) = (if updateOnDraw si then remove1 UpdateDisplay (listeners si)
                          else listeners si)"
    by (simp_all add: hide_def removeEventListener_def Let_def)
  show "stage (hide si) = set_children (stage si)
     (removeChild (container si)
        (map (\<lambda>x. if ref x = ref (container si) then with_children (container si) [] else x)
           (kids (stage si))))"
    using kids_replace_child [of "with_children (container si) []" "stage si"]
    by (simp add: hide_def Let_def r)
qed

text \<open>
  What \<open>hide()\<close> achieves in every state the host library keeps the inspector in: the
  container is empty and no child of the stage, a second call changes nothing more, and
  in a hidden state the call changes nothing.
\<close>

lemma hide_twice:
  assumes "well_formed si"
  shows "hide (hide si) = hide si
    \<and> overlay (hide si) = []
    \<and> kids (container (hide si)) = []
    \<and> ref (container si) \<notin> ref ` set (kids (stage (hide si)))
    \<and> (hidden si \<longrightarrow> hide si = si)"
proof -
  let ?c0 = "with_children (container si) []"
  let ?K1 = "map (\<lambda>x. if ref x = ref (container si) then ?c0 else x) (kids (stage si))"
  let ?K2 = "removeChild (container si) ?K1"
  from assms have one: "length (filter (\<lambda>c. ref c = ref (container si)) (kids (stage si))) \<le> 1"
    and cnt: "count_list (listeners si) UpdateDisplay \<le> 1"
    and ch: "children (stage si) \<noteq> None"
    by (simp_all add: well_formed_def)
  have "length (filter (\<lambda>x. ref x = ref (container si)) ?K1) \<le> 1"
    using one replaced_same_refs [of ?c0 "kids (stage si)"] by simp
  then have gone: "ref (container si) \<notin> ref ` set ?K2"
    by (rule removeChild_removes)
  have unsub: "UpdateDisplay \<notin> set (remove1 UpdateDisplay (listeners si))"
    using cnt by (rule remove1_removes)
  have st: "stage (hide si) = set_children (stage si) ?K2"
    by (rule hide_parts(5))
  have k2: "kids (stage (hide si)) = ?K2"
    by (simp add: st)
  have again: "map (\<lambda>x. if ref x = ref (container si) then ?c0 else x) ?K2 = ?K2"
    using gone by (rule map_replace_absent)
  have gone0: "ref ?c0 \<notin> ref ` set ?K2"
    using gone by simp
  have "stage (hide (hide si))
      = set_children (stage (hide si))
          (removeChild ?c0 (map (\<lambda>x. if ref x = ref (container si) then ?c0 else x) ?K2))"
    unfolding hide_parts(5) [of "hide si"] hide_parts(1) k2 with_children_twice
      ref_with_children ..
  also have "\<dots> = set_children (stage (hide si)) ?K2"
    unfolding again removeChild_absent [OF gone0] ..
  also have "\<dots> = stage (hide si)"
    by (simp add: st)
  finally have "stage (hide (hide si)) = stage (hide si)" .
  moreover have "listeners (hide (hide si)) = listeners (hide si)"
    using remove1_idem [OF unsub] by (simp add: hide_parts)
  moreover have "container (hide (hide si)) = container (hide si)"
    "overlay (hide (hide si)) = overlay (hide si)"
    by (simp_all add: hide_parts)
  moreover have "propFilters (hide s) = propFilters s" "nestColors (hide s) = nestColors s"
    "filters (hide s) = filters s" "fresh (hide s) = fresh s"
    "inspector.more (hide s) = inspector.more s" for s
    by (simp_all add: hide_def removeAllChildren_def write_container_def Let_def)
  ultimately have a: "hide (hide si) = hide si"
    by (intro inspector.equality) (simp_all add: hide_parts(3))
  have b: "overlay (hide si) = []" by (rule hide_parts(2))
  have c: "kids (container (hide si)) = []"
    by (simp add: hide_parts(1) with_children_def kids_def)
  have d: "ref (container si) \<notin> ref ` set (kids (stage (hide si)))"
    using gone by (simp add: st)
  have e: "hidden si \<longrightarrow> hide si = si"
  proof
    assume h: "hidden si"
    then have c0: "?c0 = container si" and ov: "overlay si = []"
      and out: "ref (container si) \<notin> ref ` set (kids (stage si))"
      and nol: "UpdateDisplay \<notin> set (listeners si)"
      by (simp_all add: hidden_def)
    from out have "?K1 = kids (stage si)" by (rule map_replace_absent)
    with out have "?K2 = kids (stage si)" by (simp add: removeChild_absent)
    with st have "stage (hide si) = stage si"
      using set_children_kids [OF ch] by simp
    moreover have "listeners (hide si) = listeners si"
      using remove1_idem [OF nol] by (simp add: hide_parts)
    moreover have "propFilters (hide si) = propFilters si" "nestColors (hide si) = nestColors si"
      "filters (hide si) = filters si" "fresh (hide si) = fresh si"
      "inspector.more (hide si) = inspector.more si"
      by (simp_all add: hide_def removeAllChildren_def write_container_def Let_def)
    ultimately show "hide si = si"
      using c0 ov by (intro inspector.equality) (simp_all add: hide_parts)
  qed
  from a b c d e show ?thesis by (intro conjI)
qed

text \<open>The constructor leaves the inspector hidden; \<open>show()\<close> keeps it well formed.\<close>

lemma example_hidden:
  "well_formed example \<and> hidden example \<and> well_formed shown \<and> well_formed shown_fixed"
  by code_simp

text \<open>
  Claim C6 says that \<open>hide()\<close> leaves no redraw subscription. In the state
  \<open>leaking\<close>, which the public operations reach, the container is not the last child
  of the stage, \<open>updateOnDraw\<close> is false and the listener is registered. There
  \<open>hide()\<close> detaches the container and leaves the listener in place: the next redraw
  fills the detached container again, and after a later \<open>show()\<close> in fixed mode the
  listener is still registered.
\<close>

theorem hide_keeps_subscription:
  "well_formed leaking
   \<and> \<not> showing leaking
   \<and> \<not> updateOnDraw leaking
   \<and> listeners leaking = [UpdateDisplay]
   \<and> listeners (hide leaking) = [UpdateDisplay]
   \<and> ref (container leaking) \<notin> ref ` set (kids (stage (hide leaking)))
   \<and> length (overlay (drawstart (hide leaking))) = 36
   \<and> listeners (show_overlay (hide leaking) None) = [UpdateDisplay]"
  by code_simp

section \<open>Dumping an entry that matches no node\<close>

text \<open>
  An entry that resolves to null ends \<open>dump\<close> with a \<open>TypeError\<close>: the display
  name is asked of null before \<open>_dumpObject\<close> is reached, and the group opened for the
  array is left open.
\<close>

lemma dump_unmatched_faults:
  "resolve si t = None \<Longrightarrow> dump si (Some (t # rest)) = ([Group ''Display objects''], Some TypeError)"
  by (simp add: dump_def getObjectDisplayName_def)

text \<open>
  Claim C1 says that \<open>dump([42])\<close>, with no node of id 42, emits a report whose
  reference is null and raises no fault. On the example scene, whose ids are 1 to 5, the
  code raises the fault and emits no report.
\<close>

theorem dump_unmatched_id_faults:
  "getObjectById example 42 = None
   \<and> dump example (Some [ById 42]) = ([Group ''Display objects''], Some TypeError)"
  by (simp add: dump_def getObjectDisplayName_def getObjectById_def example_simps scene_def
      group_a_def group_def shape_def field_def)

end
